theory Spec2Isabelle
  imports Complex_Main
begin

section \<open>JavaScript values\<close>

text \<open>
  The SDK is TypeScript; its validators run on whatever value the caller passes at run
  time. A JavaScript number is a double: finite doubles are rationals, and the three
  special values are kept apart. Comparisons with a finite literal are exact on doubles,
  and no double lies between the rational 1/10 and the double nearest to it, so the
  bound \<open>0.1\<close> of the schema is the rational 1/10 on every double.
\<close>

datatype jsnum = Fin rat | PosInf | NegInf | NaN

text \<open>\<open>x < c\<close> and \<open>x > c\<close> of JavaScript, for a finite \<open>c\<close>; both are false on NaN.\<close>

fun num_lt :: "jsnum \<Rightarrow> rat \<Rightarrow> bool" where
  "num_lt (Fin r) c = (r < c)"
| "num_lt PosInf c = False"
| "num_lt NegInf c = True"
| "num_lt NaN c = False"

fun num_gt :: "jsnum \<Rightarrow> rat \<Rightarrow> bool" where
  "num_gt (Fin r) c = (r > c)"
| "num_gt PosInf c = True"
| "num_gt NegInf c = False"
| "num_gt NaN c = False"

text \<open>
  Plain values: \<open>undefined\<close>, \<open>null\<close>, booleans, numbers, strings, arrays and
  objects. An object is its list of properties in the order they were written; as in an
  object literal, a later property of the same name overrides an earlier one.
\<close>

datatype jsval =
    JUndefined
  | JNull
  | JBool bool
  | JNum jsnum
  | JStr string
  | JArr "jsval list"
  | JObj "(string \<times> jsval) list"

text \<open>\<open>obj[key]\<close>: the value of the property, \<open>undefined\<close> when the object has none.\<close>

definition get_prop :: "(string \<times> jsval) list \<Rightarrow> string \<Rightarrow> jsval" where
  "get_prop ps k = (case map_of (rev ps) k of None \<Rightarrow> JUndefined | Some v \<Rightarrow> v)"

text \<open>Decimal digits of a natural number, as \<open>String(n)\<close> prints an index or a time.\<close>

fun string_of_nat :: "nat \<Rightarrow> string" where
  "string_of_nat n =
     (if n < 10 then [char_of (48 + n)]
      else string_of_nat (n div 10) @ [char_of (48 + n mod 10)])"

text \<open>
  The own enumerable properties that an object spread \<open>{...v}\<close> copies: those of an
  object, the indexed elements of an array or a string, none of any other value.
\<close>

fun ownProps :: "jsval \<Rightarrow> (string \<times> jsval) list" where
  "ownProps (JObj ps) = ps"
| "ownProps (JArr xs) = zip (map string_of_nat [0..<length xs]) xs"
| "ownProps (JStr s) = zip (map string_of_nat [0..<length s]) (map (\<lambda>c. JStr [c]) s)"
| "ownProps v = []"

section \<open>The zod schemas of validator.ts\<close>

text \<open>
  zod is a library outside the repository. The schema combinators that validator.ts uses
  are modelled by what their \<open>parse\<close> accepts: \<open>z.string()\<close> a string,
  \<open>.min(n)\<close>/\<open>.max(n)\<close> on a string its length (an issue when
  \<open>length < n\<close>, \<open>length > n\<close>), \<open>z.number()\<close> a number other than NaN,
  \<open>.min(c)\<close>/\<open>.max(c)\<close> on a number an issue when \<open>x < c\<close>, \<open>x > c\<close>,
  \<open>z.boolean()\<close> a boolean, \<open>z.enum\<close> a string among the listed ones, and
  \<open>z.object\<close> an object (not null, not an array) each of whose listed keys parses;
  a missing key reads as \<open>undefined\<close>, and unknown keys are ignored.
\<close>

datatype str_check = StrMin nat | StrMax nat

datatype num_check = NumMin rat | NumMax rat

datatype zschema =
    ZString "str_check list"
  | ZNumber "num_check list"
  | ZBoolean
  | ZEnum "string list"
  | ZObject "(string \<times> zschema) list"

fun str_issue :: "string \<Rightarrow> str_check \<Rightarrow> bool" where
  "str_issue s (StrMin n) = (length s < n)"
| "str_issue s (StrMax n) = (length s > n)"

fun num_issue :: "jsnum \<Rightarrow> num_check \<Rightarrow> bool" where
  "num_issue x (NumMin c) = num_lt x c"
| "num_issue x (NumMax c) = num_gt x c"

text \<open>\<open>parse sch v\<close> holds when \<open>sch.parse(v)\<close> returns, and fails when it throws.\<close>

fun parse :: "zschema \<Rightarrow> jsval \<Rightarrow> bool"
  and parse_shape :: "(string \<times> zschema) list \<Rightarrow> (string \<times> jsval) list \<Rightarrow> bool" where
  "parse (ZString cs) v =
     (case v of JStr s \<Rightarrow> \<not> list_ex (str_issue s) cs | _ \<Rightarrow> False)"
| "parse (ZNumber cs) v =
     (case v of JNum x \<Rightarrow> x \<noteq> NaN \<and> \<not> list_ex (num_issue x) cs | _ \<Rightarrow> False)"
| "parse ZBoolean v = (case v of JBool b \<Rightarrow> True | _ \<Rightarrow> False)"
| "parse (ZEnum alts) v = (case v of JStr s \<Rightarrow> s \<in> set alts | _ \<Rightarrow> False)"
| "parse (ZObject shape) v = (case v of JObj ps \<Rightarrow> parse_shape shape ps | _ \<Rightarrow> False)"
| "parse_shape [] ps = True"
| "parse_shape ((k, sch) # shape) ps = (parse sch (get_prop ps k) \<and> parse_shape shape ps)"

definition chainConfigSchema :: zschema where
  "chainConfigSchema = ZObject
     [(''name'', ZString [StrMin 1, StrMax 50]),
      (''executionLayer'', ZEnum [''ZK'', ''Optimistic'']),
      (''baseChain'', ZEnum [''Ethereum'', ''Solana'', ''Binance'']),
      (''sequencer'', ZEnum [''Decentralized'', ''Centralized'', ''Hybrid'']),
      (''tps'', ZNumber [NumMin 1000, NumMax 100000]),
      (''features'', ZObject
         [(''privacy'', ZBoolean),
          (''interop'', ZBoolean),
          (''dataAvailability'', ZBoolean)]),
      (''consensus'', ZObject
         [(''algorithm'', ZString []),
          (''blockTime'', ZNumber [NumMin (1 / 10), NumMax 60]),
          (''validators'', ZNumber [NumMin 1, NumMax 1000])])]"

definition deploymentOptionsSchema :: zschema where
  "deploymentOptionsSchema = ZObject
     [(''environment'', ZEnum [''testnet'', ''mainnet'']),
      (''autoScale'', ZBoolean),
      (''monitoring'', ZBoolean)]"

text \<open>
  Both validators turn the exception of \<open>parse\<close> into \<open>false\<close> (and log it, which
  changes no state of the SDK).
\<close>

definition validateChainConfig :: "jsval \<Rightarrow> bool" where
  "validateChainConfig config = parse chainConfigSchema config"

definition validateDeploymentOptions :: "jsval \<Rightarrow> bool" where
  "validateDeploymentOptions options = parse deploymentOptionsSchema options"

section \<open>The class Chain of chain.ts\<close>

datatype error = Error string

record ChainStatus =
  status :: string
  blockHeight :: jsnum
  tps :: jsnum
  latency :: jsnum
  uptime :: jsnum

text \<open>
  The fields of the class. The field \<open>status\<close> of the class is \<open>chain_status\<close> here,
  since the record \<open>ChainStatus\<close> has a field \<open>status\<close> of its own;
  \<open>deploymentOptions\<close> is \<open>undefined\<close> until a deployment stores it.
\<close>

record Chain =
  config :: jsval
  deploymentOptions :: jsval
  chain_status :: ChainStatus

text \<open>The constructor: \<open>Inl\<close> is the exception thrown, \<open>Inr\<close> the object built.\<close>

definition Chain_new :: "jsval \<Rightarrow> error + Chain" where
  "Chain_new cfg =
     (if \<not> validateChainConfig cfg then Inl (Error ''Invalid chain configuration'')
      else Inr \<lparr>config = cfg, deploymentOptions = JUndefined,
                chain_status = \<lparr>status = ''inactive'', blockHeight = Fin 0, tps = Fin 0,
                                 latency = Fin 0, uptime = Fin 0\<rparr>\<rparr>)"

text \<open>
  A method returns its outcome (\<open>Inl\<close> the exception it throws, or rejects its promise
  with) together with the object as the call leaves it.

  \<open>deploy\<close> is asynchronous, with one \<open>await\<close>. \<open>deploy_begin\<close> is the part that
  runs before the \<open>await\<close>, \<open>deploy_resume\<close> the continuation once the awaited
  promise has settled: \<open>Inr ()\<close> when it resolved, \<open>Inl e\<close> when it rejected with
  \<open>e\<close> (the \<open>catch\<close> branch). The promise awaited in the source is a timer of 2000
  ms, which always resolves: \<open>deployment_logic\<close>.
\<close>

definition deploy_begin :: "Chain \<Rightarrow> jsval \<Rightarrow> (error + unit) \<times> Chain" where
  "deploy_begin this options =
     (if \<not> validateDeploymentOptions options
      then (Inl (Error ''Invalid deployment options''), this)
      else (Inr (), this\<lparr>deploymentOptions := options,
                          chain_status := (chain_status this)\<lparr>status := ''deploying''\<rparr>\<rparr>))"

definition deploy_resume :: "error + unit \<Rightarrow> Chain \<Rightarrow> (error + unit) \<times> Chain" where
  "deploy_resume awaited this =
     (case awaited of
        Inr u \<Rightarrow> (Inr (), this\<lparr>chain_status := (chain_status this)\<lparr>status := ''active''\<rparr>\<rparr>)
      | Inl e \<Rightarrow> (Inl e, this\<lparr>chain_status := (chain_status this)\<lparr>status := ''error''\<rparr>\<rparr>))"

definition deployment_logic :: "error + unit" where
  "deployment_logic = Inr ()"

text \<open>A whole call of \<open>deploy\<close> with no other call running during the \<open>await\<close>.\<close>

definition deploy_with :: "error + unit \<Rightarrow> Chain \<Rightarrow> jsval \<Rightarrow> (error + unit) \<times> Chain" where
  "deploy_with awaited this options =
     (case deploy_begin this options of
        (Inl e, this') \<Rightarrow> (Inl e, this')
      | (Inr u, this') \<Rightarrow> deploy_resume awaited this')"

definition deploy :: "Chain \<Rightarrow> jsval \<Rightarrow> (error + unit) \<times> Chain" where
  "deploy this options = deploy_with deployment_logic this options"

definition getStatus :: "Chain \<Rightarrow> ChainStatus" where
  "getStatus this = chain_status this"

definition getConfig :: "Chain \<Rightarrow> jsval" where
  "getConfig this = config this"

definition updateConfig :: "Chain \<Rightarrow> jsval \<Rightarrow> (error + unit) \<times> Chain" where
  "updateConfig this newConfig =
     (let updatedConfig = JObj (ownProps (config this) @ ownProps newConfig)
      in if \<not> validateChainConfig updatedConfig
         then (Inl (Error ''Invalid configuration update''), this)
         else (Inr (), this\<lparr>config := updatedConfig\<rparr>))"

text \<open>
  The states a \<open>Chain\<close> object can be in: built by the constructor, then changed by
  the methods in any order. The continuation of a \<open>deploy\<close> may run after any number
  of other calls, since they can be made while it awaits; letting it run at any time
  covers every schedule. \<open>getStatus\<close> and \<open>getConfig\<close> only read.
\<close>

inductive reachable :: "Chain \<Rightarrow> bool" where
  constructed: "Chain_new cfg = Inr this \<Longrightarrow> reachable this"
| deploy_started: "reachable this \<Longrightarrow> reachable (snd (deploy_begin this options))"
| deploy_settled: "reachable this \<Longrightarrow> reachable (snd (deploy_resume awaited this))"
| config_updated: "reachable this \<Longrightarrow> reachable (snd (updateConfig this newConfig))"

subsection \<open>The configuration schema in the words of the specification\<close>

text \<open>
  The fields and bounds as the specification lists them: a name of 1 to 50 characters,
  the execution layer, base chain and sequencer mode among their alternatives, a
  throughput between 1000 and 100000, three boolean feature flags, and the consensus
  parameters: an algorithm name, a block time between 0.1 and 60 and a validator count
  between 1 and 1000.
\<close>

definition spec_text_between :: "nat \<Rightarrow> nat \<Rightarrow> jsval \<Rightarrow> bool" where
  "spec_text_between lo hi v = (case v of JStr s \<Rightarrow> lo \<le> length s \<and> length s \<le> hi | _ \<Rightarrow> False)"

definition spec_text :: "jsval \<Rightarrow> bool" where
  "spec_text v = (case v of JStr s \<Rightarrow> True | _ \<Rightarrow> False)"

definition spec_one_of :: "string list \<Rightarrow> jsval \<Rightarrow> bool" where
  "spec_one_of alts v = (case v of JStr s \<Rightarrow> s \<in> set alts | _ \<Rightarrow> False)"

definition spec_number_between :: "rat \<Rightarrow> rat \<Rightarrow> jsval \<Rightarrow> bool" where
  "spec_number_between lo hi v =
     (case v of JNum (Fin r) \<Rightarrow> lo \<le> r \<and> r \<le> hi | _ \<Rightarrow> False)"

definition spec_flag :: "jsval \<Rightarrow> bool" where
  "spec_flag v = (case v of JBool b \<Rightarrow> True | _ \<Rightarrow> False)"

definition spec_features_ok :: "jsval \<Rightarrow> bool" where
  "spec_features_ok v =
     (case v of
        JObj fs \<Rightarrow> spec_flag (get_prop fs ''privacy'') \<and> spec_flag (get_prop fs ''interop'')
          \<and> spec_flag (get_prop fs ''dataAvailability'')
      | _ \<Rightarrow> False)"

definition spec_consensus_ok :: "jsval \<Rightarrow> bool" where
  "spec_consensus_ok v =
     (case v of
        JObj cs \<Rightarrow> spec_text (get_prop cs ''algorithm'')
          \<and> spec_number_between (1 / 10) 60 (get_prop cs ''blockTime'')
          \<and> spec_number_between 1 1000 (get_prop cs ''validators'')
      | _ \<Rightarrow> False)"

definition spec_config_ok :: "jsval \<Rightarrow> bool" where
  "spec_config_ok c =
     (case c of
        JObj ps \<Rightarrow> spec_text_between 1 50 (get_prop ps ''name'')
          \<and> spec_one_of [''ZK'', ''Optimistic''] (get_prop ps ''executionLayer'')
          \<and> spec_one_of [''Ethereum'', ''Solana'', ''Binance''] (get_prop ps ''baseChain'')
          \<and> spec_one_of [''Decentralized'', ''Centralized'', ''Hybrid''] (get_prop ps ''sequencer'')
          \<and> spec_number_between 1000 100000 (get_prop ps ''tps'')
          \<and> spec_features_ok (get_prop ps ''features'')
          \<and> spec_consensus_ok (get_prop ps ''consensus'')
      | _ \<Rightarrow> False)"

section \<open>The class Sequencer\<close>

text \<open>
  The interface \<open>Transaction\<close>; its fields carry the prefix \<open>tx_\<close>. The provider is
  an RPC client of a library outside the repository, never called: its URL stands for it.
\<close>

record Transaction =
  tx_from :: string
  tx_to :: string
  tx_data :: string
  tx_value :: int
  tx_nonce :: jsnum

record Sequencer =
  chain :: string
  provider :: string
  queue :: "Transaction list"

definition Sequencer_new :: "string \<Rightarrow> string \<Rightarrow> Sequencer" where
  "Sequencer_new baseChain rpcUrl = \<lparr>chain = baseChain, provider = rpcUrl, queue = []\<rparr>"

text \<open>
  Both methods take the value of \<open>Date.now()\<close> at the call, in milliseconds, and return the
  string the promise resolves to with the object as the call leaves it. Neither throws.
\<close>

definition processBatch :: "nat \<Rightarrow> Sequencer \<Rightarrow> string \<times> Sequencer" where
  "processBatch now this = (''tx_hash_'' @ string_of_nat now, this)"

definition submitTransaction :: "nat \<Rightarrow> Sequencer \<Rightarrow> Transaction \<Rightarrow> string \<times> Sequencer" where
  "submitTransaction now this tx = processBatch now (this\<lparr>queue := queue this @ [tx]\<rparr>)"

text \<open>A run of calls of \<open>submitTransaction\<close>, each with its time, in the order made.\<close>

fun submitAll :: "Sequencer \<Rightarrow> (nat \<times> Transaction) list \<Rightarrow> Sequencer" where
  "submitAll this [] = this"
| "submitAll this ((now, tx) # calls) = submitAll (snd (submitTransaction now this tx)) calls"

subsection \<open>The admission and batching rules in the words of the specification\<close>

text \<open>
  The specification rejects a transaction whose nonce is not the next one of its sender;
  a nonce that a queued transaction of the same sender already carries is never the next
  one. Its batch trigger is the size test, then the age test.
\<close>

definition spec_duplicate_nonce :: "Transaction list \<Rightarrow> Transaction \<Rightarrow> bool" where
  "spec_duplicate_nonce q tx = list_ex (\<lambda>t. tx_from t = tx_from tx \<and> tx_nonce t = tx_nonce tx) q"

definition spec_shouldProcessBatch :: "nat \<Rightarrow> nat \<Rightarrow> nat \<Rightarrow> nat \<Rightarrow> bool" where
  "spec_shouldProcessBatch batchSize maxLatency queueLength oldestAge =
     (queueLength \<ge> batchSize \<or> oldestAge > maxLatency)"


section \<open>The bridge message queue\<close>

text \<open>
  Modelled from the spec: the repository has no bridge; its documentation only names
  \<open>MessageQueue.queueMessage\<close>, \<open>generateMessageId\<close> and \<open>persistMessage\<close>
  without bodies. The wire message and the queued message are the specification's data
  model; a payload is its bytes.
\<close>

record BridgeMetadata =
  nonce :: nat
  timestamp :: nat
  gasLimit :: nat
  deadline :: nat

text \<open>
  Modelled from the spec: the bridge wire message: source chain, target chain, payload
  bytes, proof and metadata.
\<close>

record BridgeMessage =
  sourceChain :: string
  targetChain :: string
  payload :: "nat list"
  msg_proof :: string
  metadata :: BridgeMetadata

text \<open>Modelled from the spec: the status of a queued message.\<close>

datatype delivery = Pending | Sent | Confirmed | Failed

text \<open>
  Modelled from the spec: a queued message, the delivery obligation the queue holds for a
  message.
\<close>

record QueuedMessage =
  message :: BridgeMessage
  retryCount :: nat
  delivery_status :: delivery

text \<open>
  Modelled from the spec: the deterministic identity, the hash of source chain, target
  chain, payload and nonce. The hash function itself is a parameter.
\<close>

definition generateMessageId ::
  "(string \<Rightarrow> string \<Rightarrow> nat list \<Rightarrow> nat \<Rightarrow> 'id) \<Rightarrow> BridgeMessage \<Rightarrow> 'id" where
  "generateMessageId hash m =
     hash (sourceChain m) (targetChain m) (payload m) (nonce (metadata m))"

text \<open>
  Modelled from the spec: \<open>send\<close> returns the identity of the message and queues a
  delivery obligation for it, unless one with this identity is queued already. The queue
  lists the obligations with their identities, oldest first.
\<close>

definition send ::
  "(string \<Rightarrow> string \<Rightarrow> nat list \<Rightarrow> nat \<Rightarrow> 'id) \<Rightarrow> ('id \<times> QueuedMessage) list \<Rightarrow> BridgeMessage
     \<Rightarrow> 'id \<times> ('id \<times> QueuedMessage) list" where
  "send hash q m =
     (let messageId = generateMessageId hash m
      in case map_of q messageId of
           Some queued \<Rightarrow> (messageId, q)
         | None \<Rightarrow> (messageId,
             q @ [(messageId, \<lparr>message = m, retryCount = 0, delivery_status = Pending\<rparr>)]))"

text \<open>
  Modelled from the spec: a delivery that the destination acknowledges marks the
  obligations of that identity confirmed.
\<close>

definition confirm :: "('id \<times> QueuedMessage) list \<Rightarrow> 'id \<Rightarrow> ('id \<times> QueuedMessage) list" where
  "confirm q i =
     map (\<lambda>(j, queued). if j = i then (j, queued\<lparr>delivery_status := Confirmed\<rparr>) else (j, queued)) q"

text \<open>
  Modelled from the spec: the delivery obligations that the queue holds for an identity.
\<close>

definition obligations :: "('id \<times> QueuedMessage) list \<Rightarrow> 'id \<Rightarrow> (QueuedMessage) list" where
  "obligations q i = map snd (filter (\<lambda>(j, queued). j = i) q)"

section \<open>The atomic transaction coordinator\<close>

text \<open>
  Modelled from the spec: the repository has no coordinator; its documentation sketches
  \<open>AtomicTransactionCoordinator\<close> over helpers without bodies. These are the
  overall statuses of a cross-chain transaction.
\<close>

datatype tx_status = Preparing | Prepared | Committing | Committed | Aborting | Aborted

text \<open>
  Modelled from the spec: a cross-chain transaction is its participants, the participants
  whose lock the coordinator holds, the preparation proofs received, the participants
  that committed, those sent a compensating message, the overall status and the statuses
  entered so far, oldest first.
\<close>

record 'p CrossChainTransaction =
  participants :: "'p list"
  locks :: "'p list"
  prepProofs :: "('p \<times> string) list"
  committed :: "'p list"
  compensated :: "'p list"
  overall :: tx_status
  trail :: "tx_status list"

text \<open>
  Modelled from the spec: a transaction starts in \<open>preparing\<close>, with no lock held.
\<close>

definition begin_tx :: "'p list \<Rightarrow> 'p CrossChainTransaction" where
  "begin_tx ps = \<lparr>participants = ps, locks = [], prepProofs = [], committed = [],
     compensated = [], overall = Preparing, trail = [Preparing]\<rparr>"

text \<open>Modelled from the spec: a change of the overall status, recorded in the trail.\<close>

definition enter :: "tx_status \<Rightarrow> 'p CrossChainTransaction \<Rightarrow> 'p CrossChainTransaction" where
  "enter s t = t\<lparr>overall := s, trail := trail t @ [s]\<rparr>"

text \<open>
  Modelled from the spec: an abort passes through \<open>aborting\<close>, releases every lock
  held, and ends \<open>aborted\<close>.
\<close>

definition abort :: "'p CrossChainTransaction \<Rightarrow> 'p CrossChainTransaction" where
  "abort t = enter Aborted ((enter Aborting t)\<lparr>locks := []\<rparr>)"

text \<open>
  Modelled from the spec: prepare, participant by participant: acquire its lock, then
  request its preparation proof; the first failure of either aborts. The two capabilities
  are parameters: whether the lock of a participant can be taken, and the proof it
  returns, if any.
\<close>

fun prepareTransaction ::
  "('p \<Rightarrow> bool) \<Rightarrow> ('p \<Rightarrow> string option) \<Rightarrow> 'p list \<Rightarrow> 'p CrossChainTransaction
     \<Rightarrow> 'p CrossChainTransaction" where
  "prepareTransaction acquireLock prove [] t = enter Prepared t"
| "prepareTransaction acquireLock prove (p # ps) t =
     (if \<not> acquireLock p then abort t
      else case prove p of
             None \<Rightarrow> abort (t\<lparr>locks := locks t @ [p]\<rparr>)
           | Some pf \<Rightarrow> prepareTransaction acquireLock prove ps
               (t\<lparr>locks := locks t @ [p], prepProofs := prepProofs t @ [(p, pf)]\<rparr>))"

text \<open>
  Modelled from the spec: commit, participant by participant; a failed delivery sends a
  compensating message to the participants that committed and aborts. Reaching
  \<open>committed\<close> releases the locks.
\<close>

fun broadcastCommit ::
  "('p \<Rightarrow> bool) \<Rightarrow> 'p list \<Rightarrow> 'p CrossChainTransaction \<Rightarrow> 'p CrossChainTransaction" where
  "broadcastCommit deliver [] t = enter Committed (t\<lparr>locks := []\<rparr>)"
| "broadcastCommit deliver (p # ps) t =
     (if deliver p then broadcastCommit deliver ps (t\<lparr>committed := committed t @ [p]\<rparr>)
      else abort (t\<lparr>compensated := committed t\<rparr>))"

text \<open>
  Modelled from the spec: the state machine: prepare, then commit when every participant
  is prepared; an aborted prepare is the end.
\<close>

definition executeAtomicTransaction ::
  "('p \<Rightarrow> bool) \<Rightarrow> ('p \<Rightarrow> string option) \<Rightarrow> ('p \<Rightarrow> bool) \<Rightarrow> 'p list
     \<Rightarrow> 'p CrossChainTransaction" where
  "executeAtomicTransaction acquireLock prove deliver ps =
     (let t = prepareTransaction acquireLock prove ps (begin_tx ps)
      in if overall t = Prepared then broadcastCommit deliver ps (enter Committing t) else t)"

section \<open>Example values\<close>

text \<open>The configuration and the deployment options of the SDK's own example.\<close>

definition exampleConfig :: jsval where
  "exampleConfig = JObj
     [(''name'', JStr ''SimpleL2''),
      (''executionLayer'', JStr ''ZK''),
      (''baseChain'', JStr ''Ethereum''),
      (''sequencer'', JStr ''Decentralized''),
      (''tps'', JNum (Fin 50000)),
      (''features'', JObj [(''privacy'', JBool True), (''interop'', JBool True),
         (''dataAvailability'', JBool True)]),
      (''consensus'', JObj [(''algorithm'', JStr ''PoS''), (''blockTime'', JNum (Fin 2)),
         (''validators'', JNum (Fin 100))])]"

definition exampleChain :: Chain where
  "exampleChain = \<lparr>config = exampleConfig, deploymentOptions = JUndefined,
     chain_status = \<lparr>status = ''inactive'', blockHeight = Fin 0, tps = Fin 0,
                      latency = Fin 0, uptime = Fin 0\<rparr>\<rparr>"

definition exampleOptions :: jsval where
  "exampleOptions = JObj [(''environment'', JStr ''testnet''), (''autoScale'', JBool True),
     (''monitoring'', JBool True)]"

text \<open>Options with an environment outside the enum, and two partial updates.\<close>

definition stagingOptions :: jsval where
  "stagingOptions = JObj [(''environment'', JStr ''staging''), (''autoScale'', JBool True),
     (''monitoring'', JBool True)]"

definition tpsTooLow :: jsval where
  "tpsTooLow = JObj [(''tps'', JNum (Fin 500))]"

definition tpsRaised :: jsval where
  "tpsRaised = JObj [(''tps'', JNum (Fin 60000))]"

definition lowTpsConfig :: jsval where
  "lowTpsConfig = JObj (ownProps exampleConfig @ ownProps tpsTooLow)"

text \<open>A sequencer as constructed, and two transactions of one sender.\<close>

definition seq0 :: Sequencer where
  "seq0 = Sequencer_new ''Ethereum'' ''http://localhost:8545''"

definition tx1 :: Transaction where
  "tx1 = \<lparr>tx_from = ''0xA'', tx_to = ''0xB'', tx_data = ''0x'', tx_value = 0, tx_nonce = Fin 1\<rparr>"

definition tx2 :: Transaction where
  "tx2 = \<lparr>tx_from = ''0xA'', tx_to = ''0xB'', tx_data = ''0x'', tx_value = 0, tx_nonce = Fin 2\<rparr>"

text \<open>
  A bridge message and the same logical message sent again later (another timestamp and
  deadline), an identity function that keeps the four hashed parts apart, and three
  participant chains of which the second cannot produce its preparation proof.
\<close>

definition exampleMessage :: BridgeMessage where
  "exampleMessage = \<lparr>sourceChain = ''Ethereum'', targetChain = ''Solana'', payload = [1, 2, 3],
     msg_proof = ''p'', metadata = \<lparr>nonce = 7, timestamp = 100, gasLimit = 21000, deadline = 200\<rparr>\<rparr>"

definition resentMessage :: BridgeMessage where
  "resentMessage = \<lparr>sourceChain = ''Ethereum'', targetChain = ''Solana'', payload = [1, 2, 3],
     msg_proof = ''p'', metadata = \<lparr>nonce = 7, timestamp = 150, gasLimit = 21000, deadline = 250\<rparr>\<rparr>"

definition exampleHash :: "string \<Rightarrow> string \<Rightarrow> nat list \<Rightarrow> nat \<Rightarrow> string \<times> string \<times> nat list \<times> nat" where
  "exampleHash src tgt bytes n = (src, tgt, bytes, n)"

definition exampleProofs :: "string \<Rightarrow> string option" where
  "exampleProofs p = (if p = ''Solana'' then None else Some (''proof of '' @ p))"

definition exampleParticipants :: "string list" where
  "exampleParticipants = [''Ethereum'', ''Solana'', ''Binance'']"

definition exampleLocks :: "string \<Rightarrow> bool" where
  "exampleLocks p = True"

definition exampleDelivery :: "string \<Rightarrow> bool" where
  "exampleDelivery p = True"

section \<open>The validator against the schema of the specification\<close>

declare string_of_nat.simps [simp del]

lemma string_of_nat_examples:
  "string_of_nat 0 = ''0''" "string_of_nat 1000 = ''1000''" "string_of_nat 2000 = ''2000''"
  by code_simp+

lemma parse_string_bounds:
  "parse (ZString [StrMin lo, StrMax hi]) v = spec_text_between lo hi v"
  by (cases v) (auto simp: spec_text_between_def)

lemma parse_string_any: "parse (ZString []) v = spec_text v"
  by (cases v) (auto simp: spec_text_def)

lemma parse_enum: "parse (ZEnum alts) v = spec_one_of alts v"
  by (cases v) (auto simp: spec_one_of_def)

lemma parse_number_bounds:
  "parse (ZNumber [NumMin lo, NumMax hi]) v = spec_number_between lo hi v"
proof (cases v)
  case (JNum x)
  then show ?thesis by (cases x) (auto simp: spec_number_between_def)
qed (auto simp: spec_number_between_def)

lemma parse_boolean: "parse ZBoolean v = spec_flag v"
  by (cases v) (auto simp: spec_flag_def)

lemma parse_features:
  "parse (ZObject [(''privacy'', ZBoolean), (''interop'', ZBoolean), (''dataAvailability'', ZBoolean)]) v
     = spec_features_ok v"
  by (cases v) (simp_all add: spec_features_ok_def parse_boolean del: parse.simps(3))

lemma parse_consensus:
  "parse (ZObject [(''algorithm'', ZString []), (''blockTime'', ZNumber [NumMin (1 / 10), NumMax 60]),
      (''validators'', ZNumber [NumMin 1, NumMax 1000])]) v = spec_consensus_ok v"
  by (cases v)
    (simp_all add: spec_consensus_ok_def parse_string_any parse_number_bounds del: parse.simps(1,2))

lemma parse_object_JObj: "parse (ZObject shape) (JObj ps) = parse_shape shape ps"
  by simp

lemma validateChainConfig_spec: "validateChainConfig c = spec_config_ok c"
proof (cases c)
  case (JObj ps)
  show ?thesis
    unfolding validateChainConfig_def chainConfigSchema_def spec_config_ok_def JObj
    by (simp only: parse_object_JObj parse_shape.simps parse_string_bounds parse_enum
        parse_number_bounds parse_features parse_consensus jsval.case simp_thms)
qed (simp_all add: validateChainConfig_def chainConfigSchema_def spec_config_ok_def)

lemma get_prop_append:
  "get_prop (ps @ qs) k = (if k \<in> fst ` set qs then get_prop qs k else get_prop ps k)"
proof (cases "map_of (rev qs) k")
  case None
  then have "k \<notin> fst ` set qs" by (simp add: map_of_eq_None_iff)
  with None show ?thesis by (simp add: get_prop_def map_add_def)
next
  case (Some v)
  then have "k \<in> fst ` set qs" by (metis map_of_eq_None_iff option.distinct(1) set_rev)
  with Some show ?thesis by (simp add: get_prop_def map_add_def)
qed

lemma exampleConfig_valid: "validateChainConfig exampleConfig"
  by code_simp

lemma lowTpsConfig_invalid: "\<not> validateChainConfig lowTpsConfig"
  by code_simp

lemma Chain_new_example: "Chain_new exampleConfig = Inr exampleChain"
  by code_simp

lemma exampleOptions_valid: "validateDeploymentOptions exampleOptions"
  by code_simp

lemma stagingOptions_invalid: "\<not> validateDeploymentOptions stagingOptions"
  by code_simp

text \<open>
  Claim C5: \<open>validateChainConfig\<close> accepts a configuration if and only if it has all
  the fields the specification lists (name, execution layer, base chain, sequencer mode,
  throughput, the three feature flags, and the consensus algorithm, block time and
  validator count), each within its bounds: a name of 1 to 50 characters, a throughput in
  [1000, 100000], a block time in [0.1, 60], a validator count in [1, 1000], and every
  enum among its alternatives.
\<close>

theorem validateChainConfig_iff_spec: "validateChainConfig c \<longleftrightarrow> spec_config_ok c"
  by (rule validateChainConfig_spec)

theorem validateChainConfig_iff_spec_witness:
  "validateChainConfig exampleConfig \<and> spec_config_ok exampleConfig
   \<and> \<not> validateChainConfig lowTpsConfig \<and> \<not> spec_config_ok lowTpsConfig"
  using validateChainConfig_iff_spec [of exampleConfig] validateChainConfig_iff_spec [of lowTpsConfig]
    exampleConfig_valid lowTpsConfig_invalid
  by simp

section \<open>The class Chain\<close>

text \<open>
  Claim C4: constructing a \<open>Chain\<close> with a configuration that fails validation (a
  numeric field out of bounds, an enum or a shape that is wrong) throws, and no object
  is built; a \<open>Chain\<close> exists only for a configuration that passes validation, which it
  then stores, in status inactive.
\<close>

theorem Chain_new_validates:
  "(\<not> validateChainConfig cfg \<longrightarrow> Chain_new cfg = Inl (Error ''Invalid chain configuration''))
   \<and> (\<not> spec_config_ok cfg \<longrightarrow> Chain_new cfg = Inl (Error ''Invalid chain configuration''))
   \<and> (\<forall>this. Chain_new cfg = Inr this \<longrightarrow>
         validateChainConfig cfg \<and> spec_config_ok cfg \<and> getConfig this = cfg
         \<and> status (getStatus this) = ''inactive'')"
  by (auto simp: Chain_new_def validateChainConfig_spec getConfig_def getStatus_def)

theorem Chain_new_validates_witness:
  "\<not> validateChainConfig lowTpsConfig
   \<and> Chain_new lowTpsConfig = Inl (Error ''Invalid chain configuration'')
   \<and> Chain_new exampleConfig = Inr exampleChain
   \<and> validateChainConfig exampleConfig \<and> getConfig exampleChain = exampleConfig"
  using Chain_new_validates [of lowTpsConfig] Chain_new_validates [of exampleConfig]
    lowTpsConfig_invalid Chain_new_example
  by simp

text \<open>
  Claim C9: when the stored configuration merged with a partial update fails
  validation, \<open>updateConfig\<close> throws and leaves the object, and so what \<open>getConfig\<close>
  returns, as it was; when the merge passes validation the call succeeds and every field
  that the update does not mention keeps its value.
\<close>

theorem updateConfig_atomic:
  "(\<not> validateChainConfig (JObj (ownProps (getConfig this) @ ownProps newConfig)) \<longrightarrow>
      updateConfig this newConfig = (Inl (Error ''Invalid configuration update''), this)
      \<and> getConfig (snd (updateConfig this newConfig)) = getConfig this)
   \<and> (validateChainConfig (JObj (ownProps (getConfig this) @ ownProps newConfig)) \<longrightarrow>
      fst (updateConfig this newConfig) = Inr ()
      \<and> (\<forall>k. k \<notin> fst ` set (ownProps newConfig) \<longrightarrow>
            get_prop (ownProps (getConfig (snd (updateConfig this newConfig)))) k
              = get_prop (ownProps (getConfig this)) k))"
  by (simp add: updateConfig_def getConfig_def Let_def get_prop_append)

theorem updateConfig_atomic_witness:
  "\<not> validateChainConfig (JObj (ownProps (getConfig exampleChain) @ ownProps tpsTooLow))
   \<and> getConfig (snd (updateConfig exampleChain tpsTooLow)) = exampleConfig
   \<and> validateChainConfig (JObj (ownProps (getConfig exampleChain) @ ownProps tpsRaised))
   \<and> fst (updateConfig exampleChain tpsRaised) = Inr ()
   \<and> ''name'' \<notin> fst ` set (ownProps tpsRaised)
   \<and> get_prop (ownProps (getConfig (snd (updateConfig exampleChain tpsRaised)))) ''name''
        = JStr ''SimpleL2''"
proof -
  have bad: "\<not> validateChainConfig (JObj (ownProps (getConfig exampleChain) @ ownProps tpsTooLow))"
    by code_simp
  have good: "validateChainConfig (JObj (ownProps (getConfig exampleChain) @ ownProps tpsRaised))"
    by code_simp
  have fresh: "''name'' \<notin> fst ` set (ownProps tpsRaised)"
    by (simp add: tpsRaised_def)
  have old: "get_prop (ownProps (getConfig exampleChain)) ''name'' = JStr ''SimpleL2''"
    by code_simp
  have cfg: "getConfig exampleChain = exampleConfig"
    by (simp add: getConfig_def exampleChain_def)
  from updateConfig_atomic [of exampleChain tpsTooLow] updateConfig_atomic [of exampleChain tpsRaised]
    bad good fresh old cfg
  show ?thesis by simp
qed

text \<open>
  Claim C10: \<open>deploy\<close> with options that fail validation throws before it changes
  anything: the object, and so its status and its stored deployment options, is as it
  was before the call, whatever the deployment would have done.
\<close>

theorem deploy_rejects_invalid_options:
  "\<not> validateDeploymentOptions options \<Longrightarrow>
     deploy this options = (Inl (Error ''Invalid deployment options''), this)
     \<and> deploy_with awaited this options = (Inl (Error ''Invalid deployment options''), this)
     \<and> getStatus (snd (deploy this options)) = getStatus this
     \<and> deploymentOptions (snd (deploy this options)) = deploymentOptions this"
  by (simp add: deploy_def deploy_with_def deploy_begin_def)

theorem deploy_rejects_invalid_options_witness:
  "\<not> validateDeploymentOptions stagingOptions
   \<and> deploy exampleChain stagingOptions = (Inl (Error ''Invalid deployment options''), exampleChain)
   \<and> status (getStatus (snd (deploy exampleChain stagingOptions))) = ''inactive''
   \<and> deploymentOptions (snd (deploy exampleChain stagingOptions)) = JUndefined"
  using deploy_rejects_invalid_options [OF stagingOptions_invalid, of exampleChain]
    stagingOptions_invalid
  by (simp add: getStatus_def exampleChain_def)

lemma reachable_status:
  "reachable this \<Longrightarrow>
     status (chain_status this) \<in> {''inactive'', ''deploying'', ''active'', ''error''}"
proof (induction rule: reachable.induct)
  case (constructed cfg this)
  then show ?case by (auto simp: Chain_new_def split: if_splits)
next
  case (deploy_started this options)
  then show ?case by (simp add: deploy_begin_def)
next
  case (deploy_settled this awaited)
  then show ?case by (cases awaited) (simp_all add: deploy_resume_def)
next
  case (config_updated this newConfig)
  then show ?case by (simp add: updateConfig_def Let_def)
qed

text \<open>
  Claim C6: the status that \<open>getStatus\<close> shows is always one of inactive, deploying,
  active and error. The constructor sets it to inactive; \<open>updateConfig\<close> and a
  \<open>deploy\<close> that rejects its options leave it alone; a \<open>deploy\<close> with valid options
  sets it to deploying, then to active when the deployment succeeds and to error when it
  fails.
\<close>

theorem chain_status_lifecycle:
  "(\<forall>cfg c. Chain_new cfg = Inr c \<longrightarrow> status (getStatus c) = ''inactive'')
   \<and> (reachable this \<longrightarrow>
        status (getStatus this) \<in> {''inactive'', ''deploying'', ''active'', ''error''})
   \<and> getStatus (snd (updateConfig this newConfig)) = getStatus this
   \<and> (\<not> validateDeploymentOptions options \<longrightarrow>
        getStatus (snd (deploy_with awaited this options)) = getStatus this)
   \<and> (validateDeploymentOptions options \<longrightarrow>
        status (getStatus (snd (deploy_begin this options))) = ''deploying''
        \<and> status (getStatus (snd (deploy_with (Inr ()) this options))) = ''active''
        \<and> status (getStatus (snd (deploy_with (Inl e) this options))) = ''error''
        \<and> status (getStatus (snd (deploy this options))) = ''active'')"
proof -
  have "\<forall>cfg c. Chain_new cfg = Inr c \<longrightarrow> status (getStatus c) = ''inactive''"
    by (auto simp: Chain_new_def getStatus_def split: if_splits)
  moreover have "reachable this \<longrightarrow>
      status (getStatus this) \<in> {''inactive'', ''deploying'', ''active'', ''error''}"
    using reachable_status by (simp add: getStatus_def)
  moreover have "getStatus (snd (updateConfig this newConfig)) = getStatus this"
    by (simp add: updateConfig_def getStatus_def Let_def)
  moreover have "\<not> validateDeploymentOptions options \<longrightarrow>
      getStatus (snd (deploy_with awaited this options)) = getStatus this"
    by (simp add: deploy_with_def deploy_begin_def)
  moreover have "validateDeploymentOptions options \<longrightarrow>
        status (getStatus (snd (deploy_begin this options))) = ''deploying''
        \<and> status (getStatus (snd (deploy_with (Inr ()) this options))) = ''active''
        \<and> status (getStatus (snd (deploy_with (Inl e) this options))) = ''error''
        \<and> status (getStatus (snd (deploy this options))) = ''active''"
    by (simp add: deploy_def deployment_logic_def deploy_with_def deploy_begin_def
        deploy_resume_def getStatus_def)
  ultimately show ?thesis by blast
qed

theorem chain_status_lifecycle_witness:
  "Chain_new exampleConfig = Inr exampleChain
   \<and> status (getStatus exampleChain) = ''inactive''
   \<and> reachable (snd (deploy exampleChain exampleOptions))
   \<and> status (getStatus (snd (deploy exampleChain exampleOptions)))
        \<in> {''inactive'', ''deploying'', ''active'', ''error''}
   \<and> validateDeploymentOptions exampleOptions
   \<and> status (getStatus (snd (deploy_begin exampleChain exampleOptions))) = ''deploying''
   \<and> status (getStatus (snd (deploy exampleChain exampleOptions))) = ''active''
   \<and> status (getStatus (snd (deploy_with (Inl (Error ''timeout'')) exampleChain exampleOptions)))
        = ''error''
   \<and> \<not> validateDeploymentOptions stagingOptions
   \<and> getStatus (snd (deploy_with deployment_logic exampleChain stagingOptions))
        = getStatus exampleChain"
proof -
  have "reachable exampleChain" using Chain_new_example by (rule reachable.constructed)
  then have "reachable (snd (deploy_resume deployment_logic
      (snd (deploy_begin exampleChain exampleOptions))))"
    by (intro reachable.deploy_settled reachable.deploy_started)
  then have reach: "reachable (snd (deploy exampleChain exampleOptions))"
    using exampleOptions_valid by (simp add: deploy_def deploy_with_def deploy_begin_def)
  from chain_status_lifecycle [of "snd (deploy exampleChain exampleOptions)" tpsRaised
      exampleOptions deployment_logic "Error ''timeout''"]
    chain_status_lifecycle [of exampleChain tpsRaised exampleOptions deployment_logic
      "Error ''timeout''"]
    chain_status_lifecycle [of exampleChain tpsRaised stagingOptions deployment_logic
      "Error ''timeout''"]
    Chain_new_example exampleOptions_valid stagingOptions_invalid reach
  show ?thesis by simp
qed

section \<open>The class Sequencer\<close>

lemma queue_submitAll: "queue (submitAll this calls) = queue this @ map snd calls"
  by (induction this calls rule: submitAll.induct)
     (simp_all add: submitTransaction_def processBatch_def)

lemma seq0_queue: "queue seq0 = []"
  by (simp add: seq0_def Sequencer_new_def)




text \<open>
  Against claim C1 as stated: a transaction whose sender and nonce are those of a
  transaction already queued is accepted all the same; the call returns a hash and the
  transaction stands in the queue a second time.
\<close>

theorem submitTransaction_admits_duplicate_nonce:
  "spec_duplicate_nonce (queue (snd (submitTransaction 1000 seq0 tx1))) tx1
   \<and> submitTransaction 2000 (snd (submitTransaction 1000 seq0 tx1)) tx1
        = (''tx_hash_2000'', seq0\<lparr>queue := [tx1, tx1]\<rparr>)"
  by (simp add: spec_duplicate_nonce_def submitTransaction_def processBatch_def seq0_def
      Sequencer_new_def string_of_nat_examples)

text \<open>
  Claim C1, amended: \<open>submitTransaction\<close> validates nothing. For every sequencer and
  every transaction, whatever its nonce and payload, the call returns the string
  tx_hash_ followed by the time, and the queue afterwards is the queue before with the
  transaction appended at its tail.
\<close>

theorem submitTransaction_no_validation:
  "submitTransaction now this tx
     = (''tx_hash_'' @ string_of_nat now, this\<lparr>queue := queue this @ [tx]\<rparr>)
   \<and> last (queue (snd (submitTransaction now this tx))) = tx"
  by (simp add: submitTransaction_def processBatch_def)

theorem submitTransaction_no_validation_witness:
  "submitTransaction 1000 seq0 tx1 = (''tx_hash_1000'', seq0\<lparr>queue := [tx1]\<rparr>)"
  using submitTransaction_no_validation [of 1000 seq0 tx1]
  by (simp add: seq0_queue string_of_nat_examples)

text \<open>
  Against claim C2 as stated, on the specification's own scenario (a batch size of 2 and
  a maximal latency of 5000 ms): after two submissions the size trigger holds, yet both
  transactions are still in the queue; and the first submission, on which neither
  trigger holds, runs \<open>processBatch\<close> and returns its hash.
\<close>

theorem processBatch_ignores_trigger:
  "spec_shouldProcessBatch 2 5000 (length [tx1, tx2]) 500
   \<and> queue (submitAll seq0 [(0, tx1), (500, tx2)]) = [tx1, tx2]
   \<and> \<not> spec_shouldProcessBatch 2 5000 (length [tx1]) 0
   \<and> submitTransaction 0 seq0 tx1 = processBatch 0 (seq0\<lparr>queue := [tx1]\<rparr>)
   \<and> processBatch 0 (seq0\<lparr>queue := [tx1]\<rparr>) = (''tx_hash_0'', seq0\<lparr>queue := [tx1]\<rparr>)"
  by (simp add: spec_shouldProcessBatch_def submitTransaction_def processBatch_def seq0_def
      Sequencer_new_def string_of_nat_examples)

text \<open>
  Claim C2, amended: the sequencer has no batch size and no maximal latency.
  \<open>submitTransaction\<close> runs \<open>processBatch\<close> after every enqueue, whatever the length
  and the age of the queue, and \<open>processBatch\<close> removes nothing from the queue: it
  returns the string tx_hash_ followed by the time and leaves the sequencer as it was, so
  the queue grows by one with every submission.
\<close>

theorem processBatch_never_drains:
  "processBatch now this = (''tx_hash_'' @ string_of_nat now, this)
   \<and> submitTransaction now this tx = processBatch now (this\<lparr>queue := queue this @ [tx]\<rparr>)
   \<and> length (queue (submitAll this calls)) = length (queue this) + length calls"
  by (simp add: queue_submitAll submitTransaction_def processBatch_def)

theorem processBatch_never_drains_witness:
  "processBatch 2000 seq0 = (''tx_hash_2000'', seq0)
   \<and> length (queue (submitAll seq0 [(0, tx1), (500, tx2)])) = 2"
  using processBatch_never_drains [of 2000 seq0 tx1 "[(0, tx1), (500, tx2)]"]
  by (simp add: seq0_queue string_of_nat_examples del: submitAll.simps)

section \<open>The bridge message queue\<close>

lemma send_id: "fst (send hash q m) = generateMessageId hash m"
  by (simp add: send_def Let_def split: option.splits)

lemma send_again:
  assumes "generateMessageId hash m' = generateMessageId hash m"
  shows "send hash (snd (send hash q m)) m' = (generateMessageId hash m, snd (send hash q m))"
proof (cases "map_of q (generateMessageId hash m)")
  case None
  then show ?thesis using assms by (simp add: send_def Let_def map_add_def)
next
  case (Some queued)
  then show ?thesis using assms by (simp add: send_def Let_def)
qed

lemma obligations_distinct:
  "distinct (map fst q) \<Longrightarrow> length (obligations q i) \<le> 1"
proof (induction q)
  case Nil
  then show ?case by (simp add: obligations_def)
next
  case (Cons entry q)
  obtain j queued where entry: "entry = (j, queued)" by (cases entry)
  show ?case
  proof (cases "j = i")
    case True
    with Cons.prems entry have "i \<notin> fst ` set q" by simp
    then have "filter (\<lambda>(j, queued). j = i) q = []"
      by (force simp: filter_empty_conv)
    with True entry show ?thesis by (simp add: obligations_def)
  next
    case False
    with Cons entry show ?thesis by (simp add: obligations_def)
  qed
qed

lemma send_distinct: "distinct (map fst q) \<Longrightarrow> distinct (map fst (snd (send hash q m)))"
  by (auto simp: send_def Let_def map_of_eq_None_iff split: option.splits)

lemma send_obligation:
  "length (obligations (snd (send hash q m)) (generateMessageId hash m)) \<ge> 1"
proof (cases "map_of q (generateMessageId hash m)")
  case None
  then show ?thesis by (simp add: send_def Let_def obligations_def)
next
  case (Some queued)
  then have "(generateMessageId hash m, queued) \<in> set q" by (rule map_of_SomeD)
  then have "(generateMessageId hash m, queued)
      \<in> set (filter (\<lambda>(j, queued). j = generateMessageId hash m) q)"
    by simp
  then have "0 < length (filter (\<lambda>(j, queued). j = generateMessageId hash m) q)"
    by (rule length_pos_if_in_set)
  with Some show ?thesis by (simp add: send_def Let_def obligations_def Suc_le_eq)
qed

lemma obligations_confirm:
  "length (obligations (confirm q i) k) = length (obligations q k)"
  by (induction q) (auto simp: obligations_def confirm_def split: if_splits)

text \<open>
  Claim C7: two sends of messages with the same source chain, target chain, payload and
  nonce return the same identity, the hash of these four parts; the second send leaves
  the queue as the first left it, so the queue holds one delivery obligation for that
  identity, and at most one confirmed delivery once it is acknowledged. The queue is one
  that holds no identity twice, as the empty queue and every queue that sends build.
\<close>

theorem send_idempotent:
  assumes "sourceChain m' = sourceChain m" and "targetChain m' = targetChain m"
    and "payload m' = payload m" and "nonce (metadata m') = nonce (metadata m)"
    and "distinct (map fst q)"
  shows "fst (send hash q m) = hash (sourceChain m) (targetChain m) (payload m) (nonce (metadata m))
    \<and> fst (send hash (snd (send hash q m)) m') = fst (send hash q m)
    \<and> snd (send hash (snd (send hash q m)) m') = snd (send hash q m)
    \<and> length (obligations (snd (send hash (snd (send hash q m)) m')) (fst (send hash q m))) = 1
    \<and> length (filter (\<lambda>queued. delivery_status queued = Confirmed)
         (obligations (confirm (snd (send hash (snd (send hash q m)) m')) (fst (send hash q m)))
            (fst (send hash q m)))) \<le> 1"
proof -
  let ?i = "generateMessageId hash m"
  let ?q1 = "snd (send hash q m)"
  have same: "generateMessageId hash m' = ?i"
    using assms(1-4) by (simp add: generateMessageId_def)
  have again: "send hash ?q1 m' = (?i, ?q1)" using same by (rule send_again)
  have "distinct (map fst ?q1)" using assms(5) by (rule send_distinct)
  then have le: "length (obligations ?q1 ?i) \<le> 1" by (rule obligations_distinct)
  have ge: "length (obligations ?q1 ?i) \<ge> 1" by (rule send_obligation)
  have one: "length (obligations ?q1 ?i) = 1" using le ge by simp
  have "length (filter (\<lambda>queued. delivery_status queued = Confirmed)
      (obligations (confirm ?q1 ?i) ?i)) \<le> length (obligations (confirm ?q1 ?i) ?i)"
    by (rule length_filter_le)
  also have "\<dots> = 1" using one by (simp add: obligations_confirm)
  finally have conf: "length (filter (\<lambda>queued. delivery_status queued = Confirmed)
      (obligations (confirm ?q1 ?i) ?i)) \<le> 1" .
  show ?thesis using again one conf by (simp add: send_id generateMessageId_def)
qed

theorem send_idempotent_witness:
  "sourceChain resentMessage = sourceChain exampleMessage
   \<and> targetChain resentMessage = targetChain exampleMessage
   \<and> payload resentMessage = payload exampleMessage
   \<and> nonce (metadata resentMessage) = nonce (metadata exampleMessage)
   \<and> resentMessage \<noteq> exampleMessage
   \<and> distinct (map fst ([] :: ((string \<times> string \<times> nat list \<times> nat) \<times> QueuedMessage) list))
   \<and> fst (send exampleHash [] exampleMessage) = (''Ethereum'', ''Solana'', [1, 2, 3], 7)
   \<and> fst (send exampleHash (snd (send exampleHash [] exampleMessage)) resentMessage)
        = fst (send exampleHash [] exampleMessage)
   \<and> snd (send exampleHash (snd (send exampleHash [] exampleMessage)) resentMessage)
        = snd (send exampleHash [] exampleMessage)"
proof -
  have same: "sourceChain resentMessage = sourceChain exampleMessage"
    "targetChain resentMessage = targetChain exampleMessage"
    "payload resentMessage = payload exampleMessage"
    "nonce (metadata resentMessage) = nonce (metadata exampleMessage)"
    by (simp_all add: resentMessage_def exampleMessage_def)
  have differ: "resentMessage \<noteq> exampleMessage"
    by (simp add: resentMessage_def exampleMessage_def)
  have fresh: "distinct (map fst ([] :: ((string \<times> string \<times> nat list \<times> nat) \<times> QueuedMessage) list))"
    by simp
  have parts: "exampleHash (sourceChain exampleMessage) (targetChain exampleMessage)
      (payload exampleMessage) (nonce (metadata exampleMessage)) = (''Ethereum'', ''Solana'', [1, 2, 3], 7)"
    by (simp add: exampleHash_def exampleMessage_def)
  from send_idempotent [OF same fresh, of exampleHash] same differ parts
  show ?thesis by simp
qed

section \<open>The atomic transaction coordinator\<close>

lemma abort_result:
  "abort t = t\<lparr>locks := [], overall := Aborted, trail := trail t @ [Aborting, Aborted]\<rparr>"
  by (simp add: abort_def enter_def)

lemma prepare_failure:
  assumes "\<exists>p \<in> set ps. \<not> acquireLock p \<or> prove p = None"
  shows "\<exists>proofs. prepareTransaction acquireLock prove ps t
     = t\<lparr>locks := [], prepProofs := proofs, overall := Aborted,
          trail := trail t @ [Aborting, Aborted]\<rparr>"
  using assms
proof (induction ps arbitrary: t)
  case Nil
  then show ?case by simp
next
  case (Cons p ps)
  show ?case
  proof (cases "acquireLock p")
    case False
    then have "prepareTransaction acquireLock prove (p # ps) t
      = t\<lparr>locks := [], prepProofs := prepProofs t, overall := Aborted,
           trail := trail t @ [Aborting, Aborted]\<rparr>"
      by (simp add: abort_result)
    then show ?thesis by blast
  next
    case True
    show ?thesis
    proof (cases "prove p")
      case None
      with True have "prepareTransaction acquireLock prove (p # ps) t
        = t\<lparr>locks := [], prepProofs := prepProofs t, overall := Aborted,
             trail := trail t @ [Aborting, Aborted]\<rparr>"
        by (simp add: abort_result)
      then show ?thesis by blast
    next
      case (Some pf)
      with True Cons.prems have rest: "\<exists>p \<in> set ps. \<not> acquireLock p \<or> prove p = None"
        by auto
      let ?t = "t\<lparr>locks := locks t @ [p], prepProofs := prepProofs t @ [(p, pf)]\<rparr>"
      from Cons.IH [OF rest, of ?t] obtain proofs where
        "prepareTransaction acquireLock prove ps ?t
          = ?t\<lparr>locks := [], prepProofs := proofs, overall := Aborted,
               trail := trail ?t @ [Aborting, Aborted]\<rparr>"
        by blast
      with True Some have "prepareTransaction acquireLock prove (p # ps) t
        = t\<lparr>locks := [], prepProofs := proofs, overall := Aborted,
             trail := trail t @ [Aborting, Aborted]\<rparr>"
        by simp
      then show ?thesis by blast
    qed
  qed
qed

text \<open>
  Claim C8: when the lock or the preparation proof of any participant fails, no
  participant commits: the coordinator passes from preparing to aborting and ends
  aborted, never prepared, committing or committed, and it holds no lock at the end.
\<close>

theorem prepare_failure_aborts:
  assumes "\<exists>p \<in> set ps. \<not> acquireLock p \<or> prove p = None"
  shows "committed (executeAtomicTransaction acquireLock prove deliver ps) = []
    \<and> locks (executeAtomicTransaction acquireLock prove deliver ps) = []
    \<and> overall (executeAtomicTransaction acquireLock prove deliver ps) = Aborted
    \<and> trail (executeAtomicTransaction acquireLock prove deliver ps)
         = [Preparing, Aborting, Aborted]"
proof -
  from prepare_failure [OF assms, of "begin_tx ps"] obtain proofs where
    "prepareTransaction acquireLock prove ps (begin_tx ps)
      = (begin_tx ps)\<lparr>locks := [], prepProofs := proofs, overall := Aborted,
          trail := trail (begin_tx ps) @ [Aborting, Aborted]\<rparr>"
    by blast
  then show ?thesis by (simp add: executeAtomicTransaction_def begin_tx_def)
qed

theorem prepare_failure_aborts_witness:
  "(\<exists>p \<in> set exampleParticipants. \<not> exampleLocks p \<or> exampleProofs p = None)
   \<and> exampleLocks ''Ethereum'' \<and> exampleProofs ''Ethereum'' \<noteq> None
   \<and> committed (executeAtomicTransaction exampleLocks exampleProofs exampleDelivery
        exampleParticipants) = []
   \<and> locks (executeAtomicTransaction exampleLocks exampleProofs exampleDelivery
        exampleParticipants) = []
   \<and> overall (executeAtomicTransaction exampleLocks exampleProofs exampleDelivery
        exampleParticipants) = Aborted"
proof -
  have failing: "\<exists>p \<in> set exampleParticipants. \<not> exampleLocks p \<or> exampleProofs p = None"
    by (simp add: exampleParticipants_def exampleProofs_def)
  have first: "exampleLocks ''Ethereum'' \<and> exampleProofs ''Ethereum'' \<noteq> None"
    by (simp add: exampleLocks_def exampleProofs_def)
  from prepare_failure_aborts [OF failing, of exampleDelivery] failing first
  show ?thesis by simp
qed

end
